theory Spec2Isabelle
  imports Main
begin

section \<open>Values, errors and the store\<close>

text \<open>
  The decorators of \<^verbatim>\<open>deco.py\<close> work on Python function objects. A function object
  has a name (\<^verbatim>\<open>__name__\<close>), a documentation string (\<^verbatim>\<open>__doc__\<close>), a reference to
  its attribute dictionary (\<^verbatim>\<open>__dict__\<close>) and its code. The name and the documentation
  are slots of the object; they are not entries of \<^verbatim>\<open>__dict__\<close>. Every other attribute
  (\<^verbatim>\<open>calls\<close>, \<^verbatim>\<open>cache\<close>, \<^verbatim>\<open>depth\<close>) is an entry of the dictionary that \<^verbatim>\<open>__dict__\<close>
  refers to, so two function objects with the same \<^verbatim>\<open>__dict__\<close> reference share all
  of them.

  Values are \<^verbatim>\<open>None\<close>, the unbounded integers and strings; on these HOL equality is
  Python's \<^verbatim>\<open>==\<close>, all of them are hashable, and each has a falsy inhabitant. The
  semantics is Python 3: keyword arguments keep the order of the call, and comparing a
  string with an integer raises \<^verbatim>\<open>TypeError\<close>.
\<close>

datatype pyval = VNone | VInt int | VStr string

datatype exn = AttributeError | TypeError | IndexError | NameError | Raised string

text \<open>An attribute holds a value or a dictionary from argument tuples to values.\<close>

datatype attr = AVal pyval | ADict "pyval list \<Rightarrow> pyval option"

type_synonym kwargs = "(string \<times> pyval) list"

text \<open>
  The mutable part of the program state: the attribute dictionaries by address, and the
  lines printed so far.
\<close>

record mem =
  bags :: "nat \<Rightarrow> string \<Rightarrow> attr option"
  out :: "string list"

type_synonym outcome = "exn + pyval"

text \<open>A call returns or raises in a new store, or does not come back (\<open>None\<close>).\<close>

type_synonym result = "(outcome \<times> mem) option"

type_synonym caller = "nat \<Rightarrow> pyval list \<Rightarrow> kwargs \<Rightarrow> mem \<Rightarrow> result"

text \<open>
  The body of a \<^verbatim>\<open>def\<close>: it sees the global names, can call any function object
  through the caller it is given, and reads and writes the store.
\<close>

type_synonym body = "(string \<Rightarrow> nat option) \<Rightarrow> caller \<Rightarrow> pyval list \<Rightarrow> kwargs \<Rightarrow> mem \<Rightarrow> result"

datatype code =
    Def body
  | Disable_wrap nat
  | Decorator_wrap nat
  | Countcalls_wrap nat
  | Memo_wrap nat
  | N_ary_wrap nat
  | Trace_wrap2 pyval nat

record funobj =
  fname :: string
  fdoc :: "string option"
  fdict :: nat
  fcode :: code

text \<open>
  The function objects by address (the index in the list), the global names and the next
  free dictionary address. Function objects are created while the module is loaded and
  are not changed by calls.
\<close>

record env =
  funs :: "funobj list"
  globals :: "string \<Rightarrow> nat option"
  nextb :: nat

definition fun_at :: "env \<Rightarrow> nat \<Rightarrow> funobj option" where
  "fun_at E i = (if i < length (funs E) then Some (funs E ! i) else None)"

definition setattr :: "nat \<Rightarrow> string \<Rightarrow> attr \<Rightarrow> mem \<Rightarrow> mem" where
  "setattr b name a m = m\<lparr>bags := (bags m)(b := (bags m b)(name \<mapsto> a))\<rparr>"

definition print :: "string \<Rightarrow> mem \<Rightarrow> mem" where
  "print line m = m\<lparr>out := out m @ [line]\<rparr>"

text \<open>Attribute access on a function object goes through its \<^verbatim>\<open>__dict__\<close> reference.\<close>

definition getattr_fn :: "env \<Rightarrow> nat \<Rightarrow> string \<Rightarrow> mem \<Rightarrow> exn + attr" where
  "getattr_fn E g name m =
     (case fun_at E g of
        None \<Rightarrow> Inl AttributeError
      | Some fo \<Rightarrow> (case bags m (fdict fo) name of
                     None \<Rightarrow> Inl AttributeError
                   | Some a \<Rightarrow> Inr a))"

definition setattr_fn :: "env \<Rightarrow> nat \<Rightarrow> string \<Rightarrow> attr \<Rightarrow> mem \<Rightarrow> mem" where
  "setattr_fn E g name a m =
     (case fun_at E g of
        None \<Rightarrow> m
      | Some fo \<Rightarrow> setattr (fdict fo) name a m)"

subsection \<open>Built-in operations on values\<close>

fun truthy :: "pyval \<Rightarrow> bool" where
  "truthy VNone = False"
| "truthy (VInt i) = (i \<noteq> 0)"
| "truthy (VStr s) = (s \<noteq> [])"

fun str_nat :: "nat \<Rightarrow> string" where
  "str_nat n = (if n < 10 then [char_of (48 + n)]
                else str_nat (n div 10) @ [char_of (48 + n mod 10)])"

declare str_nat.simps [simp del]

fun str :: "pyval \<Rightarrow> string" where
  "str VNone = ''None''"
| "str (VInt i) = (if i < 0 then CHR ''-'' # str_nat (nat (- i)) else str_nat (nat i))"
| "str (VStr s) = s"

fun join :: "string \<Rightarrow> string list \<Rightarrow> string" where
  "join sep [] = []"
| "join sep [x] = x"
| "join sep (x # y # ys) = x @ sep @ join sep (y # ys)"

text \<open>\<^verbatim>\<open>s * n\<close> for a string and an integer: empty when \<open>n \<le> 0\<close>.\<close>

definition repeat :: "string \<Rightarrow> int \<Rightarrow> string" where
  "repeat s n = concat (replicate (nat n) s)"

fun py_add :: "pyval \<Rightarrow> pyval \<Rightarrow> outcome" where
  "py_add (VInt a) (VInt b) = Inr (VInt (a + b))"
| "py_add (VStr a) (VStr b) = Inr (VStr (a @ b))"
| "py_add _ _ = Inl TypeError"

fun py_mul :: "pyval \<Rightarrow> pyval \<Rightarrow> outcome" where
  "py_mul (VInt a) (VInt b) = Inr (VInt (a * b))"
| "py_mul (VStr a) (VInt b) = Inr (VStr (repeat a b))"
| "py_mul (VInt a) (VStr b) = Inr (VStr (repeat b a))"
| "py_mul _ _ = Inl TypeError"

text \<open>
  \<^verbatim>\<open>x.name += k\<close> on the dictionary at address \<open>b\<close>: the attribute must be there
  and hold an integer.
\<close>

definition iadd :: "nat \<Rightarrow> string \<Rightarrow> int \<Rightarrow> mem \<Rightarrow> exn + mem" where
  "iadd b name k m =
     (case bags m b name of
        None \<Rightarrow> Inl AttributeError
      | Some (AVal (VInt i)) \<Rightarrow> Inr (setattr b name (AVal (VInt (i + k))) m)
      | Some _ \<Rightarrow> Inl TypeError)"

text \<open>\<^verbatim>\<open>str(indent) * x.depth\<close>.\<close>

definition indent_str :: "pyval \<Rightarrow> nat \<Rightarrow> mem \<Rightarrow> exn + string" where
  "indent_str indent b m =
     (case bags m b ''depth'' of
        None \<Rightarrow> Inl AttributeError
      | Some (AVal (VInt d)) \<Rightarrow> Inr (repeat (str indent) d)
      | Some _ \<Rightarrow> Inl TypeError)"

text \<open>
  Binding the arguments of a call to the parameters of a \<^verbatim>\<open>def\<close>: positional
  arguments first, then every remaining parameter by its name; a missing, a surplus or a
  doubly given argument is a \<^verbatim>\<open>TypeError\<close> (here \<open>None\<close>).
\<close>

fun bind_kw :: "string list \<Rightarrow> kwargs \<Rightarrow> pyval list option" where
  "bind_kw [] kw = (if kw = [] then Some [] else None)"
| "bind_kw (p # ps) kw =
     (case map_of kw p of
        None \<Rightarrow> None
      | Some v \<Rightarrow> (case bind_kw ps (filter (\<lambda>e. fst e \<noteq> p) kw) of
                     None \<Rightarrow> None
                   | Some vs \<Rightarrow> Some (v # vs)))"

definition bind_params :: "string list \<Rightarrow> pyval list \<Rightarrow> kwargs \<Rightarrow> pyval list option" where
  "bind_params ps args kw =
     (if length ps < length args then None
      else (case bind_kw (drop (length args) ps) kw of
              None \<Rightarrow> None
            | Some vs \<Rightarrow> Some (args @ vs)))"

section \<open>The wrappers\<close>

text \<open>
  Each inner function of \<^verbatim>\<open>deco.py\<close>, with the caller \<open>c\<close> for the calls it makes,
  the address \<open>b\<close> of its own attribute dictionary (the wrapper names itself to reach
  its attributes) and the wrapped function object \<open>f\<close>.
\<close>

definition disable_wrap :: "caller \<Rightarrow> nat \<Rightarrow> pyval list \<Rightarrow> kwargs \<Rightarrow> mem \<Rightarrow> result" where
  "disable_wrap c f args kw m =
     (case c f args kw m of
        None \<Rightarrow> None
      | Some (Inl e, m') \<Rightarrow> Some (Inl e, m')
      | Some (Inr v, m') \<Rightarrow> Some (Inr VNone, m'))"

definition decorator_wrap :: "caller \<Rightarrow> nat \<Rightarrow> pyval list \<Rightarrow> kwargs \<Rightarrow> mem \<Rightarrow> result" where
  "decorator_wrap c f args kw m =
     (case c f args kw m of
        None \<Rightarrow> None
      | Some (Inl e, m') \<Rightarrow> Some (Inl e, m')
      | Some (Inr v, m') \<Rightarrow> Some (Inr VNone, m'))"

text \<open>\<^verbatim>\<open>getattr(countcalls_wrap, "calls", 0) + 1\<close>.\<close>

definition next_calls :: "nat \<Rightarrow> mem \<Rightarrow> exn + pyval" where
  "next_calls b m =
     (case bags m b ''calls'' of
        None \<Rightarrow> Inr (VInt (0 + 1))
      | Some (AVal (VInt i)) \<Rightarrow> Inr (VInt (i + 1))
      | Some _ \<Rightarrow> Inl TypeError)"

definition countcalls_wrap :: "caller \<Rightarrow> nat \<Rightarrow> nat \<Rightarrow> pyval list \<Rightarrow> kwargs \<Rightarrow> mem \<Rightarrow> result" where
  "countcalls_wrap c b f args kw m =
     (case next_calls b m of
        Inl e \<Rightarrow> Some (Inl e, m)
      | Inr v \<Rightarrow> c f args kw (setattr b ''calls'' (AVal v) m))"

definition memo_wrap :: "caller \<Rightarrow> nat \<Rightarrow> nat \<Rightarrow> pyval list \<Rightarrow> kwargs \<Rightarrow> mem \<Rightarrow> result" where
  "memo_wrap c b f args kw m =
     (let key = args @ map snd kw in
      case bags m b ''cache'' of
        None \<Rightarrow> Some (Inl AttributeError, m)
      | Some (AVal x) \<Rightarrow> Some (Inl AttributeError, m)
      | Some (ADict d) \<Rightarrow>
          (let val = (case d key of None \<Rightarrow> VNone | Some v \<Rightarrow> v) in
           if \<not> truthy val then
             (case c f args kw m of
                None \<Rightarrow> None
              | Some (Inl e, m') \<Rightarrow> Some (Inl e, m')
              | Some (Inr result, m') \<Rightarrow>
                  (case bags m' b ''cache'' of
                     None \<Rightarrow> Some (Inl AttributeError, m')
                   | Some (AVal x) \<Rightarrow> Some (Inl TypeError, m')
                   | Some (ADict d') \<Rightarrow>
                       Some (Inr result, setattr b ''cache'' (ADict (d'(key \<mapsto> result))) m')))
           else Some (Inr val, m)))"

definition n_ary_wrap :: "caller \<Rightarrow> nat \<Rightarrow> nat \<Rightarrow> pyval list \<Rightarrow> kwargs \<Rightarrow> mem \<Rightarrow> result" where
  "n_ary_wrap c self f args kw m =
     (if kw \<noteq> [] then Some (Inl TypeError, m)
      else if length args = 1 then Some (Inr (args ! 0), m)
      else if length args = 2 then c f [args ! 0, args ! 1] [] m
      else (case args of
              [] \<Rightarrow> Some (Inl IndexError, m)
            | x # rest \<Rightarrow>
                (case c self rest [] m of
                   None \<Rightarrow> None
                 | Some (Inl e, m') \<Rightarrow> Some (Inl e, m')
                 | Some (Inr v, m') \<Rightarrow> c f [x, v] [] m')))"

definition trace_wrap2 ::
  "pyval \<Rightarrow> caller \<Rightarrow> nat \<Rightarrow> nat \<Rightarrow> string \<Rightarrow> pyval list \<Rightarrow> kwargs \<Rightarrow> mem \<Rightarrow> result" where
  "trace_wrap2 indent c b f f_name args kw m =
     (let args_str = ''('' @ join '', '' (map str args) @ '')'' in
      case indent_str indent b m of
        Inl e \<Rightarrow> Some (Inl e, m)
      | Inr pre \<Rightarrow>
          (let m1 = print (pre @ '' --> '' @ f_name @ args_str) m in
           case iadd b ''depth'' 1 m1 of
             Inl e \<Rightarrow> Some (Inl e, m1)
           | Inr m2 \<Rightarrow>
               (case c f args kw m2 of
                  None \<Rightarrow> None
                | Some (Inl e, m3) \<Rightarrow> Some (Inl e, m3)
                | Some (Inr result, m3) \<Rightarrow>
                    (case iadd b ''depth'' (- 1) m3 of
                       Inl e \<Rightarrow> Some (Inl e, m3)
                     | Inr m4 \<Rightarrow>
                         (case indent_str indent b m4 of
                            Inl e \<Rightarrow> Some (Inl e, m4)
                          | Inr post \<Rightarrow>
                              Some (Inr result,
                                    print (post @ '' <-- '' @ f_name @ args_str @ '' == '' @ str result) m4))))))"

section \<open>Calling a function object\<close>

text \<open>
  A call runs the code of the function object. The first argument bounds the depth of
  nested calls: with none left the call does not come back.
\<close>

primrec call :: "env \<Rightarrow> nat \<Rightarrow> caller" where
  "call E 0 = (\<lambda>g args kw m. None)"
| "call E (Suc n) = (\<lambda>g args kw m.
     case fun_at E g of
       None \<Rightarrow> Some (Inl TypeError, m)
     | Some fo \<Rightarrow>
         (case fcode fo of
            Def bd \<Rightarrow> bd (globals E) (call E n) args kw m
          | Disable_wrap f \<Rightarrow> disable_wrap (call E n) f args kw m
          | Decorator_wrap f \<Rightarrow> decorator_wrap (call E n) f args kw m
          | Countcalls_wrap f \<Rightarrow> countcalls_wrap (call E n) (fdict fo) f args kw m
          | Memo_wrap f \<Rightarrow> memo_wrap (call E n) (fdict fo) f args kw m
          | N_ary_wrap f \<Rightarrow> n_ary_wrap (call E n) g f args kw m
          | Trace_wrap2 indent f \<Rightarrow>
              (case fun_at E f of
                 None \<Rightarrow> Some (Inl AttributeError, m)
               | Some ff \<Rightarrow> trace_wrap2 indent (call E n) (fdict fo) f (fname ff) args kw m)))"

section \<open>The decorators\<close>

text \<open>
  A decorator runs while the module is loaded: it creates the wrapper's function object
  and sets its attributes. The world is the function objects with the store.
\<close>

type_synonym world = "env \<times> mem"

text \<open>
  A new function object (a \<^verbatim>\<open>def\<close> statement) comes with a dictionary of its own, at
  the next free address. The addresses from \<open>nextb\<close> on have not been used, and hold
  empty dictionaries.
\<close>

definition new_fun :: "string \<Rightarrow> string option \<Rightarrow> code \<Rightarrow> env \<Rightarrow> nat \<times> env" where
  "new_fun name doc cd E =
     (length (funs E),
      E\<lparr>funs := funs E @ [\<lparr>fname = name, fdoc = doc, fdict = nextb E, fcode = cd\<rparr>],
        nextb := Suc (nextb E)\<rparr>)"

text \<open>\<^verbatim>\<open>g.__dict__ = d\<close> for the dictionary at address \<open>b\<close>.\<close>

definition set_dict :: "nat \<Rightarrow> nat \<Rightarrow> env \<Rightarrow> env" where
  "set_dict g b E = E\<lparr>funs := (funs E)[g := (funs E ! g)\<lparr>fdict := b\<rparr>]\<rparr>"

text \<open>\<^verbatim>\<open>g.__doc__ = doc\<close>.\<close>

definition set_doc :: "nat \<Rightarrow> string option \<Rightarrow> env \<Rightarrow> env" where
  "set_doc g doc E = E\<lparr>funs := (funs E)[g := (funs E ! g)\<lparr>fdoc := doc\<rparr>]\<rparr>"

text \<open>
  The decorators take the address of the function object they wrap and return the
  address of the wrapper; there is no result for an address that holds no function.
\<close>

definition disable :: "nat \<Rightarrow> world \<Rightarrow> nat \<times> world" where
  "disable f W =
     (case W of (E, m) \<Rightarrow>
        (case new_fun ''disable_wrap'' None (Disable_wrap f) E of (g, E1) \<Rightarrow> (g, (E1, m))))"

definition decorator :: "nat \<Rightarrow> world \<Rightarrow> (nat \<times> world) option" where
  "decorator f W =
     (case W of (E, m) \<Rightarrow>
        (case new_fun ''decorator_wrap'' None (Decorator_wrap f) E of (g, E1) \<Rightarrow>
           (case fun_at E1 f of
              None \<Rightarrow> None
            | Some fo \<Rightarrow> Some (g, (set_doc g (fdoc fo) E1, m)))))"

definition countcalls :: "nat \<Rightarrow> world \<Rightarrow> (nat \<times> world) option" where
  "countcalls f W =
     (case W of (E, m) \<Rightarrow>
        (case new_fun ''countcalls_wrap'' None (Countcalls_wrap f) E of (g, E1) \<Rightarrow>
           (case fun_at E1 f of
              None \<Rightarrow> None
            | Some fo \<Rightarrow> Some (g, (set_dict g (fdict fo) E1, m)))))"

definition memo :: "nat \<Rightarrow> world \<Rightarrow> (nat \<times> world) option" where
  "memo f W =
     (case W of (E, m) \<Rightarrow>
        (case new_fun ''memo_wrap'' None (Memo_wrap f) E of (g, E1) \<Rightarrow>
           (case fun_at E1 f of
              None \<Rightarrow> None
            | Some fo \<Rightarrow>
                (let E2 = set_dict g (fdict fo) E1
                 in Some (g, (E2, setattr_fn E2 g ''cache'' (ADict Map.empty) m))))))"

definition n_ary :: "nat \<Rightarrow> world \<Rightarrow> (nat \<times> world) option" where
  "n_ary f W =
     (case W of (E, m) \<Rightarrow>
        (case new_fun ''n_ary_wrap'' None (N_ary_wrap f) E of (g, E1) \<Rightarrow>
           (case fun_at E1 f of
              None \<Rightarrow> None
            | Some fo \<Rightarrow> Some (g, (set_dict g (fdict fo) E1, m)))))"

text \<open>
  \<^verbatim>\<open>trace(indent)(f)\<close>: the intermediate closure \<^verbatim>\<open>trace_wrap\<close> is applied at once
  and holds no state, so it is not kept as an object.
\<close>

definition trace :: "pyval \<Rightarrow> nat \<Rightarrow> world \<Rightarrow> (nat \<times> world) option" where
  "trace indent f W =
     (case W of (E, m) \<Rightarrow>
        (case new_fun ''trace_wrap2'' None (Trace_wrap2 indent f) E of (g, E1) \<Rightarrow>
           (case fun_at E1 f of
              None \<Rightarrow> None
            | Some fo \<Rightarrow>
                (let E2 = set_dict g (fdict fo) E1
                 in Some (g, (E2, setattr_fn E2 g ''depth'' (AVal (VInt 0)) m))))))"

subsection \<open>Stacks of decorators\<close>

datatype comb = Countcalls | Memo | N_ary | Trace pyval

fun apply_comb :: "comb \<Rightarrow> nat \<Rightarrow> world \<Rightarrow> (nat \<times> world) option" where
  "apply_comb Countcalls f W = countcalls f W"
| "apply_comb Memo f W = memo f W"
| "apply_comb N_ary f W = n_ary f W"
| "apply_comb (Trace indent) f W = trace indent f W"

text \<open>
  The name of the inner function each decorator returns.
\<close>

fun wrapper_name :: "comb \<Rightarrow> string" where
  "wrapper_name Countcalls = ''countcalls_wrap''"
| "wrapper_name Memo = ''memo_wrap''"
| "wrapper_name N_ary = ''n_ary_wrap''"
| "wrapper_name (Trace indent) = ''trace_wrap2''"

text \<open>
  \<open>decorate cs f\<close> applies the decorators \<open>cs\<close> to \<open>f\<close>, the first of the list first
  (the one written nearest to the \<^verbatim>\<open>def\<close>), and returns every layer of the stack from
  \<open>f\<close> itself to the outermost wrapper.
\<close>

fun decorate :: "comb list \<Rightarrow> nat \<Rightarrow> world \<Rightarrow> (nat list \<times> world) option" where
  "decorate [] f W = Some ([f], W)"
| "decorate (c # cs) f W =
     (case apply_comb c f W of
        None \<Rightarrow> None
      | Some (g, W1) \<Rightarrow>
          (case decorate cs g W1 of
             None \<Rightarrow> None
           | Some (ls, W2) \<Rightarrow> Some (f # ls, W2)))"

section \<open>The module\<close>

definition empty_world :: world where
  "empty_world =
     (\<lparr>funs = [], globals = Map.empty, nextb = 0\<rparr>, \<lparr>bags = (\<lambda>b. Map.empty), out = []\<rparr>)"

text \<open>A decorated \<^verbatim>\<open>def\<close> statement binds the global name to the outermost wrapper.\<close>

definition def_stmt :: "string \<Rightarrow> string option \<Rightarrow> body \<Rightarrow> comb list \<Rightarrow> world \<Rightarrow> world option" where
  "def_stmt name doc bd cs W =
     (case W of (E0, m0) \<Rightarrow>
        (case new_fun name doc (Def bd) E0 of (f, E1) \<Rightarrow>
           (case decorate cs f (E1, m0) of
              None \<Rightarrow> None
            | Some (ls, (E, m)) \<Rightarrow> Some (E\<lparr>globals := (globals E)(name \<mapsto> last ls)\<rparr>, m))))"

definition foo :: body where
  "foo G c args kw m =
     (case bind_params [''a'', ''b''] args kw of
        None \<Rightarrow> Some (Inl TypeError, m)
      | Some vs \<Rightarrow> Some (py_add (vs ! 0) (vs ! 1), m))"

definition bar :: body where
  "bar G c args kw m =
     (case bind_params [''a'', ''b''] args kw of
        None \<Rightarrow> Some (Inl TypeError, m)
      | Some vs \<Rightarrow> Some (py_mul (vs ! 0) (vs ! 1), m))"

definition fib :: body where
  "fib G c args kw m =
     (case bind_params [''n''] args kw of
        None \<Rightarrow> Some (Inl TypeError, m)
      | Some vs \<Rightarrow>
          (case vs ! 0 of
             VInt n \<Rightarrow>
               if n \<le> 1 then Some (Inr (VInt 1), m)
               else (case G ''fib'' of
                       None \<Rightarrow> Some (Inl NameError, m)
                     | Some g \<Rightarrow>
                         (case c g [VInt (n - 1)] [] m of
                            None \<Rightarrow> None
                          | Some (Inl e, m1) \<Rightarrow> Some (Inl e, m1)
                          | Some (Inr x, m1) \<Rightarrow>
                              (case c g [VInt (n - 2)] [] m1 of
                                 None \<Rightarrow> None
                               | Some (Inl e, m2) \<Rightarrow> Some (Inl e, m2)
                               | Some (Inr y, m2) \<Rightarrow> Some (py_add x y, m2))))
           | _ \<Rightarrow> Some (Inl TypeError, m)))"

text \<open>
  The three decorated functions of the module, with the decorators of \<^verbatim>\<open>fib\<close> as a
  parameter.
\<close>

definition module_with :: "comb list \<Rightarrow> world option" where
  "module_with fib_decorators =
     (case def_stmt ''foo'' None foo [Countcalls, Memo, N_ary] empty_world of
        None \<Rightarrow> None
      | Some W1 \<Rightarrow>
          (case def_stmt ''bar'' None bar [Countcalls, N_ary, Memo] W1 of
             None \<Rightarrow> None
           | Some W2 \<Rightarrow> def_stmt ''fib'' (Some ''Some doc'') fib fib_decorators W2))"

definition module :: "world option" where
  "module = module_with [Countcalls, Memo, Trace (VStr ''####'')]"

definition env_of :: "world option \<Rightarrow> env" where
  "env_of r = (case r of None \<Rightarrow> fst empty_world | Some W \<Rightarrow> fst W)"

definition mem_of :: "world option \<Rightarrow> mem" where
  "mem_of r = (case r of None \<Rightarrow> snd empty_world | Some W \<Rightarrow> snd W)"

text \<open>A call of a global name, as in \<^verbatim>\<open>fib(6)\<close>.\<close>

definition call_global :: "env \<Rightarrow> nat \<Rightarrow> string \<Rightarrow> pyval list \<Rightarrow> kwargs \<Rightarrow> mem \<Rightarrow> result" where
  "call_global E n name args kw m =
     (case globals E name of
        None \<Rightarrow> Some (Inl NameError, m)
      | Some g \<Rightarrow> call E n g args kw m)"

text \<open>What a caller observes of a call: the value or the error, and an attribute afterwards.\<close>

definition outcome_of :: "result \<Rightarrow> outcome option" where
  "outcome_of r = map_option fst r"

definition attr_after :: "env \<Rightarrow> nat \<Rightarrow> string \<Rightarrow> result \<Rightarrow> (exn + attr) option" where
  "attr_after E g name r = map_option (\<lambda>p. getattr_fn E g name (snd p)) r"

definition store_after :: "mem \<Rightarrow> result \<Rightarrow> mem" where
  "store_after m r = (case r of None \<Rightarrow> m | Some p \<Rightarrow> snd p)"

text \<open>\<^verbatim>\<open>g.cache.get(key)\<close>, with \<open>None\<close> for a key that is not in the cache.\<close>

definition cached :: "env \<Rightarrow> nat \<Rightarrow> pyval list \<Rightarrow> mem \<Rightarrow> pyval option" where
  "cached E g key m = (case getattr_fn E g ''cache'' m of Inr (ADict d) \<Rightarrow> d key | _ \<Rightarrow> None)"

text \<open>\<^verbatim>\<open>g.__name__\<close> and \<^verbatim>\<open>g.__doc__\<close>.\<close>

definition name_of :: "env \<Rightarrow> nat \<Rightarrow> string option" where
  "name_of E g = map_option fname (fun_at E g)"

definition doc_of :: "env \<Rightarrow> nat \<Rightarrow> string option option" where
  "doc_of E g = map_option fdoc (fun_at E g)"

text \<open>\<^verbatim>\<open>getattr(g, "calls", 0)\<close>.\<close>

definition calls_of :: "env \<Rightarrow> nat \<Rightarrow> mem \<Rightarrow> attr" where
  "calls_of E g m = (case getattr_fn E g ''calls'' m of Inl e \<Rightarrow> AVal (VInt 0) | Inr a \<Rightarrow> a)"


section \<open>The right fold of the specification\<close>

text \<open>
  The specification describes the result of \<^verbatim>\<open>n_ary(f)\<close> as a right fold of \<open>f\<close> over
  the arguments: \<open>g(x) = x\<close> and \<open>g(x, y, z, ...) = f(x, g(y, z, ...))\<close>. This is that
  fold, written from the specification's words for a binary operation \<open>F\<close> that may
  raise and change the store; the wrapper of the source is compared with it below.
\<close>

fun right_fold :: "(pyval \<Rightarrow> pyval \<Rightarrow> mem \<Rightarrow> outcome \<times> mem) \<Rightarrow> pyval list \<Rightarrow> mem \<Rightarrow> outcome \<times> mem" where
  "right_fold F [] m = (Inl IndexError, m)"
| "right_fold F [x] m = (Inr x, m)"
| "right_fold F (x # y # ys) m =
     (case right_fold F (y # ys) m of
        (Inl e, m') \<Rightarrow> (Inl e, m')
      | (Inr v, m') \<Rightarrow> F x v m')"

text \<open>A function defined alone in an empty module, and the world after the definition.\<close>

definition alone :: "string \<Rightarrow> string option \<Rightarrow> body \<Rightarrow> world" where
  "alone name doc bd =
     (env_of (def_stmt name doc bd [] empty_world), mem_of (def_stmt name doc bd [] empty_world))"

text \<open>
  What the counted \<^verbatim>\<open>bar\<close> of the module does on two arguments: the counter in the
  dictionary at address 4 goes up, then the product is returned.
\<close>

definition counted_mul :: "pyval \<Rightarrow> pyval \<Rightarrow> mem \<Rightarrow> outcome \<times> mem" where
  "counted_mul a b m =
     (case next_calls 4 m of
        Inl e \<Rightarrow> (Inl e, m)
      | Inr v \<Rightarrow> (py_mul a b, setattr 4 ''calls'' (AVal v) m))"

text \<open>
  The module's \<^verbatim>\<open>bar\<close> under \<^verbatim>\<open>@memo @countcalls\<close> alone, a stack that takes keyword
  arguments.
\<close>

definition memo_bar :: "world option" where
  "memo_bar = def_stmt ''bar'' None bar [Countcalls, Memo] empty_world"


section \<open>Properties\<close>

subsection \<open>Evaluating the decorators\<close>

lemmas build_defs = alone_def def_stmt_def empty_world_def new_fun_def env_of_def mem_of_def
  countcalls_def memo_def n_ary_def trace_def decorator_def disable_def fun_at_def set_dict_def
  set_doc_def name_of_def doc_of_def Let_def getattr_fn_def setattr_fn_def setattr_def

lemma alone_at: "fun_at (fst (alone name doc bd)) 0 =
    Some \<lparr>fname = name, fdoc = doc, fdict = 0, fcode = Def bd\<rparr>"
  by (simp add: alone_def def_stmt_def empty_world_def new_fun_def env_of_def fun_at_def)

lemmas module_defs = module_def module_with_def build_defs nth_append

lemma module_bar:
  "fun_at (env_of module) 4 = Some \<lparr>fname = ''bar'', fdoc = None, fdict = 4, fcode = Def bar\<rparr>"
  "fun_at (env_of module) 5 =
     Some \<lparr>fname = ''countcalls_wrap'', fdoc = None, fdict = 4, fcode = Countcalls_wrap 4\<rparr>"
  "fun_at (env_of module) 6 =
     Some \<lparr>fname = ''n_ary_wrap'', fdoc = None, fdict = 4, fcode = N_ary_wrap 5\<rparr>"
  "fun_at (env_of module) 7 =
     Some \<lparr>fname = ''memo_wrap'', fdoc = None, fdict = 4, fcode = Memo_wrap 6\<rparr>"
  "globals (env_of module) ''bar'' = Some 7"
  by (simp_all add: module_defs)

lemma module_mem_bar:
  "bags (mem_of module) 4 ''calls'' = None"
  "bags (mem_of module) 4 ''cache'' = Some (ADict Map.empty)"
  by (simp_all add: module_defs)

lemma bar_direct: "call (env_of module) (Suc j) 4 [a, b] [] m = Some (py_mul a b, m)"
  by (simp add: module_bar bar_def bind_params_def)

lemma bar_counted:
  assumes "2 \<le> k"
  shows "call (env_of module) k 5 [a, b] [] m = Some (counted_mul a b m)"
proof -
  have "k = Suc (Suc (k - 2))" using assms by simp
  then obtain j where k: "k = Suc (Suc j)" ..
  have "call (env_of module) (Suc (Suc j)) 5 [a, b] [] m =
        countcalls_wrap (call (env_of module) (Suc j)) 4 4 [a, b] [] m"
    by (simp add: module_bar)
  also have "\<dots> = Some (counted_mul a b m)"
    by (simp add: countcalls_wrap_def counted_mul_def module_bar bar_def bind_params_def
        split: sum.split)
  finally show ?thesis using k by simp
qed

lemma memo_bar_funs:
  "fun_at (env_of memo_bar) 0 = Some \<lparr>fname = ''bar'', fdoc = None, fdict = 0, fcode = Def bar\<rparr>"
  "fun_at (env_of memo_bar) 1 =
     Some \<lparr>fname = ''countcalls_wrap'', fdoc = None, fdict = 0, fcode = Countcalls_wrap 0\<rparr>"
  "fun_at (env_of memo_bar) 2 =
     Some \<lparr>fname = ''memo_wrap'', fdoc = None, fdict = 0, fcode = Memo_wrap 1\<rparr>"
  "globals (env_of memo_bar) ''bar'' = Some 2"
  "bags (mem_of memo_bar) 0 ''calls'' = None"
  "bags (mem_of memo_bar) 0 ''cache'' = Some (ADict Map.empty)"
  by (simp_all add: memo_bar_def build_defs nth_append)


lemma module_foo:
  "fun_at (env_of module) 0 = Some \<lparr>fname = ''foo'', fdoc = None, fdict = 0, fcode = Def foo\<rparr>"
  "fun_at (env_of module) 1 =
     Some \<lparr>fname = ''countcalls_wrap'', fdoc = None, fdict = 0, fcode = Countcalls_wrap 0\<rparr>"
  "fun_at (env_of module) 2 =
     Some \<lparr>fname = ''memo_wrap'', fdoc = None, fdict = 0, fcode = Memo_wrap 1\<rparr>"
  "fun_at (env_of module) 3 =
     Some \<lparr>fname = ''n_ary_wrap'', fdoc = None, fdict = 0, fcode = N_ary_wrap 2\<rparr>"
  "globals (env_of module) ''foo'' = Some 3"
  by (simp_all add: module_defs)

lemma module_mem_calls: "bags (mem_of module) 0 ''calls'' = None"
  by (simp add: module_defs)


lemma module_fib:
  "fun_at (env_of module) 8 = Some \<lparr>fname = ''fib'', fdoc = Some ''Some doc'', fdict = 8, fcode = Def fib\<rparr>"
  "fun_at (env_of module) 9 =
     Some \<lparr>fname = ''countcalls_wrap'', fdoc = None, fdict = 8, fcode = Countcalls_wrap 8\<rparr>"
  "fun_at (env_of module) 10 =
     Some \<lparr>fname = ''memo_wrap'', fdoc = None, fdict = 8, fcode = Memo_wrap 9\<rparr>"
  "fun_at (env_of module) 11 =
     Some \<lparr>fname = ''trace_wrap2'', fdoc = None, fdict = 8, fcode = Trace_wrap2 (VStr ''####'') 10\<rparr>"
  "globals (env_of module) ''fib'' = Some 11"
  by (simp_all add: module_defs)

lemma module_mem_fib:
  "bags (mem_of module) 8 ''depth'' = Some (AVal (VInt 0))"
  "bags (mem_of module) 8 ''calls'' = None"
  "bags (mem_of module) 8 ''cache'' = Some (ADict Map.empty)"
  by (simp_all add: module_defs)

lemmas run_defs = trace_wrap2_def memo_wrap_def countcalls_wrap_def n_ary_wrap_def
  indent_str_def iadd_def next_calls_def print_def setattr_def getattr_fn_def
  bind_params_def outcome_of_def attr_after_def call_global_def Let_def repeat_def


subsection \<open>Stacks of decorators\<close>

text \<open>
  Every decorator appends one function object, named after its inner function, without
  documentation, whose dictionary reference is the one of the wrapped function.
\<close>

lemma apply_comb_funs:
  assumes "f < length (funs E)"
  shows "\<exists>cd W'. apply_comb c f (E, m) = Some (length (funs E), W') \<and>
     funs (fst W') = funs E @ [\<lparr>fname = wrapper_name c, fdoc = None,
                                 fdict = fdict (funs E ! f), fcode = cd\<rparr>]"
  using assms
  by (cases c)
    (simp_all add: countcalls_def memo_def n_ary_def trace_def new_fun_def fun_at_def
      set_dict_def nth_append Let_def)

lemma decorate_snoc:
  "decorate (cs @ [c]) f W =
     (case decorate cs f W of
        None \<Rightarrow> None
      | Some (ls, W1) \<Rightarrow>
          (case apply_comb c (last ls) W1 of
             None \<Rightarrow> None
           | Some (g, W2) \<Rightarrow> Some (ls @ [g], W2)))"
proof (induction cs arbitrary: f W)
  case Nil
  show ?case by (simp split: option.split)
next
  case (Cons d ds)
  have ne: "\<And>g W1 ls W2. decorate ds g W1 = Some (ls, W2) \<Longrightarrow> ls \<noteq> []"
    by (case_tac ds) (auto split: option.splits)
  show ?case
    using Cons.IH ne by (auto split: option.splits)
qed

lemma decorate_layers:
  assumes "f < length (funs E)"
  shows "\<exists>ls W'. decorate cs f (E, m) = Some (ls, W') \<and>
     hd ls = f \<and> length ls = Suc (length cs) \<and>
     take (length (funs E)) (funs (fst W')) = funs E \<and>
     (\<forall>w \<in> set ls. w < length (funs (fst W')) \<and>
         fdict (funs (fst W') ! w) = fdict (funs E ! f))"
  using assms
proof (induction cs arbitrary: f E m)
  case Nil
  then show ?case by simp
next
  case (Cons c cs)
  obtain cd W1 where a: "apply_comb c f (E, m) = Some (length (funs E), W1)"
    and f1: "funs (fst W1) = funs E @ [\<lparr>fname = wrapper_name c, fdoc = None,
                                 fdict = fdict (funs E ! f), fcode = cd\<rparr>]"
    using apply_comb_funs [OF Cons.prems] by blast
  obtain E1 m1 where W1: "W1 = (E1, m1)" by (cases W1)
  have g: "length (funs E) < length (funs E1)" using f1 W1 by simp
  obtain ls W' where d: "decorate cs (length (funs E)) (E1, m1) = Some (ls, W')"
    and l: "length ls = Suc (length cs)"
    and t: "take (length (funs E1)) (funs (fst W')) = funs E1"
    and s: "\<forall>w \<in> set ls. w < length (funs (fst W')) \<and>
         fdict (funs (fst W') ! w) = fdict (funs E1 ! length (funs E))"
    using Cons.IH [OF g] by blast
  have e1: "funs E1 = funs E @ [\<lparr>fname = wrapper_name c, fdoc = None,
                                 fdict = fdict (funs E ! f), fcode = cd\<rparr>]"
    using f1 W1 by simp
  have len: "length (funs E1) \<le> length (funs (fst W'))"
    using t by (metis length_take min.cobounded1 min.commute)
  have t0: "take (length (funs E)) (funs (fst W')) = funs E"
  proof -
    have le: "length (funs E) \<le> length (funs E1)" using g by simp
    have "take (length (funs E)) (funs (fst W')) =
          take (length (funs E)) (take (length (funs E1)) (funs (fst W')))"
      using le by (simp add: min_absorb1)
    also have "\<dots> = take (length (funs E)) (funs E1)" by (simp only: t)
    also have "\<dots> = funs E" by (simp add: e1)
    finally show ?thesis .
  qed
  have ff: "funs (fst W') ! f = funs E ! f"
  proof -
    have "take (length (funs E)) (funs (fst W')) ! f = funs (fst W') ! f"
      using Cons.prems by simp
    then show ?thesis using t0 by simp
  qed
  have gd: "fdict (funs E1 ! length (funs E)) = fdict (funs E ! f)"
    unfolding e1 by simp
  show ?case
    using a W1 d l t0 s ff gd Cons.prems g len by auto
qed


text \<open>
  Claim C4. For every function \<open>f\<close> and every stack of the decorators \<^verbatim>\<open>countcalls\<close>,
  \<^verbatim>\<open>memo\<close>, \<^verbatim>\<open>n_ary\<close> and \<^verbatim>\<open>trace(token)\<close> around it, building the stack succeeds and
  every layer, \<open>f\<close> included, refers to the one attribute dictionary of \<open>f\<close>: the same
  address, not a copy. Hence an attribute written through any layer is read back through
  every layer, and it leaves the attributes of other names as they were, so that
  \<^verbatim>\<open>calls\<close>, \<^verbatim>\<open>cache\<close> and \<^verbatim>\<open>depth\<close> live side by side in that dictionary.
\<close>

theorem stack_shares_bag:
  assumes "fun_at E f = Some fo"
  shows "\<exists>ls E' m'. decorate cs f (E, m) = Some (ls, (E', m')) \<and>
     hd ls = f \<and> length ls = Suc (length cs) \<and>
     (\<forall>w \<in> set ls. map_option fdict (fun_at E' w) = Some (fdict fo)) \<and>
     (\<forall>w1 \<in> set ls. \<forall>w2 \<in> set ls. \<forall>name a m0.
        getattr_fn E' w2 name (setattr_fn E' w1 name a m0) = Inr a \<and>
        (\<forall>name'. name' \<noteq> name \<longrightarrow>
           getattr_fn E' w2 name' (setattr_fn E' w1 name a m0) = getattr_fn E' w2 name' m0))"
proof -
  have f: "f < length (funs E)" and fo: "funs E ! f = fo"
    using assms by (auto simp: fun_at_def split: if_splits)
  obtain ls W' where d: "decorate cs f (E, m) = Some (ls, W')"
    and h: "hd ls = f" and l: "length ls = Suc (length cs)"
    and s: "\<forall>w \<in> set ls. w < length (funs (fst W')) \<and>
         fdict (funs (fst W') ! w) = fdict (funs E ! f)"
    using decorate_layers [OF f, of cs m] by blast
  obtain E' m' where W': "W' = (E', m')" by (cases W')
  have at: "\<And>w. w \<in> set ls \<Longrightarrow> \<exists>fw. fun_at E' w = Some fw \<and> fdict fw = fdict fo"
    using s W' fo by (auto simp: fun_at_def)
  have rw: "\<forall>w1 \<in> set ls. \<forall>w2 \<in> set ls. \<forall>name a m0.
        getattr_fn E' w2 name (setattr_fn E' w1 name a m0) = Inr a \<and>
        (\<forall>name'. name' \<noteq> name \<longrightarrow>
           getattr_fn E' w2 name' (setattr_fn E' w1 name a m0) = getattr_fn E' w2 name' m0)"
  proof (intro ballI allI)
    fix w1 w2 name a m0
    assume "w1 \<in> set ls" "w2 \<in> set ls"
    then obtain f1 f2 where "fun_at E' w1 = Some f1" "fdict f1 = fdict fo"
      "fun_at E' w2 = Some f2" "fdict f2 = fdict fo"
      using at by blast
    then show "getattr_fn E' w2 name (setattr_fn E' w1 name a m0) = Inr a \<and>
        (\<forall>name'. name' \<noteq> name \<longrightarrow>
           getattr_fn E' w2 name' (setattr_fn E' w1 name a m0) = getattr_fn E' w2 name' m0)"
      by (simp add: getattr_fn_def setattr_fn_def setattr_def)
  qed
  have "\<forall>w \<in> set ls. map_option fdict (fun_at E' w) = Some (fdict fo)"
    using at by auto
  then show ?thesis using d h l W' rw by blast
qed

theorem stack_shares_bag_witness:
  "\<exists>ls E' m'. decorate [Countcalls, Memo, N_ary] 0 (fst (alone ''foo'' None foo), snd (alone ''foo'' None foo)) = Some (ls, (E', m')) \<and>
     hd ls = 0 \<and> length ls = Suc (length [Countcalls, Memo, N_ary]) \<and>
     (\<forall>w \<in> set ls. map_option fdict (fun_at E' w) = Some 0) \<and>
     (\<forall>w1 \<in> set ls. \<forall>w2 \<in> set ls. \<forall>name a m0.
        getattr_fn E' w2 name (setattr_fn E' w1 name a m0) = Inr a \<and>
        (\<forall>name'. name' \<noteq> name \<longrightarrow>
           getattr_fn E' w2 name' (setattr_fn E' w1 name a m0) = getattr_fn E' w2 name' m0))"
  using stack_shares_bag [OF alone_at, of "[Countcalls, Memo, N_ary]" "''foo''" None foo "snd (alone ''foo'' None foo)"]
  by simp

text \<open>
  In the module, \<^verbatim>\<open>foo(4, 3, 2)\<close> returns 9; afterwards the counter of the innermost
  decorator and the cache of the one above it are read through each of the four layers
  of the stack of \<^verbatim>\<open>foo\<close>.
\<close>

lemma module_foo_run:
  "(case call_global (env_of module) 5 ''foo'' [VInt 4, VInt 3, VInt 2] [] (mem_of module) of
      Some (Inr v, m1) \<Rightarrow>
        v = VInt 9 \<and>
        list_all (\<lambda>w. calls_of (env_of module) w m1 = AVal (VInt 2) \<and>
                       cached (env_of module) w [VInt 3, VInt 2] m1 = Some (VInt 5) \<and>
                       cached (env_of module) w [VInt 4, VInt 5] m1 = Some (VInt 9)) [0, 1, 2, 3]
    | _ \<Rightarrow> False)"
  using module_foo module_mem_calls
  by (simp add: run_defs foo_def eval_nat_numeral cached_def calls_of_def module_defs)

text \<open>
  Claim C3, as amended. The wrappers do not take over the name and the documentation of
  \<open>f\<close>: only \<^verbatim>\<open>__dict__\<close> is shared, and \<^verbatim>\<open>__name__\<close> and \<^verbatim>\<open>__doc__\<close> are not entries
  of it. For every function \<open>f\<close> and every non-empty stack of the four decorators, the
  outermost wrapper bears the name of the inner function of the outermost decorator
  (\<^verbatim>\<open>countcalls_wrap\<close>, \<^verbatim>\<open>memo_wrap\<close>, \<^verbatim>\<open>n_ary_wrap\<close> or \<^verbatim>\<open>trace_wrap2\<close>) and has no
  documentation, while \<open>f\<close> keeps its own.
\<close>

theorem wrapper_keeps_own_name:
  assumes "fun_at E f = Some fo"
  shows "\<exists>ls E' m'. decorate (cs @ [c]) f (E, m) = Some (ls, (E', m')) \<and>
     name_of E' (last ls) = Some (wrapper_name c) \<and> doc_of E' (last ls) = Some None \<and>
     name_of E' (hd ls) = Some (fname fo) \<and> doc_of E' (hd ls) = Some (fdoc fo)"
proof -
  have f: "f < length (funs E)" and fo: "funs E ! f = fo"
    using assms by (auto simp: fun_at_def split: if_splits)
  obtain ls W1 where d: "decorate cs f (E, m) = Some (ls, W1)"
    and h: "hd ls = f" and l: "length ls = Suc (length cs)"
    and t: "take (length (funs E)) (funs (fst W1)) = funs E"
    and s: "\<forall>w \<in> set ls. w < length (funs (fst W1)) \<and>
         fdict (funs (fst W1) ! w) = fdict (funs E ! f)"
    using decorate_layers [OF f, of cs m] by blast
  obtain E1 m1 where W1: "W1 = (E1, m1)" by (cases W1)
  have ne: "ls \<noteq> []" using l by auto
  then have lt: "last ls < length (funs E1)" using s W1 by auto
  obtain cd W2 where a: "apply_comb c (last ls) (E1, m1) = Some (length (funs E1), W2)"
    and f2: "funs (fst W2) = funs E1 @ [\<lparr>fname = wrapper_name c, fdoc = None,
                                 fdict = fdict (funs E1 ! last ls), fcode = cd\<rparr>]"
    using apply_comb_funs [OF lt] by blast
  obtain E2 m2 where W2: "W2 = (E2, m2)" by (cases W2)
  have dec: "decorate (cs @ [c]) f (E, m) = Some (ls @ [length (funs E1)], (E2, m2))"
    using d a W1 W2 by (simp add: decorate_snoc)
  have e2: "funs E2 = funs E1 @ [\<lparr>fname = wrapper_name c, fdoc = None,
                                 fdict = fdict (funs E1 ! last ls), fcode = cd\<rparr>]"
    using f2 W2 by simp
  have le: "length (funs E) \<le> length (funs E1)"
    using t W1 by (metis fst_conv length_take min.cobounded1 min.commute)
  have "funs E1 ! f = take (length (funs E)) (funs E1) ! f" using f by simp
  then have f1: "funs E1 ! f = fo" using t W1 fo by simp
  have f_lt: "f < length (funs E1)" using f le by simp
  have hd2: "hd (ls @ [length (funs E1)]) = f" using ne h by simp
  have "name_of E2 (length (funs E1)) = Some (wrapper_name c)"
    "doc_of E2 (length (funs E1)) = Some None"
    "name_of E2 f = Some (fname fo)" "doc_of E2 f = Some (fdoc fo)"
    using f_lt f1 by (simp_all add: name_of_def doc_of_def fun_at_def e2 nth_append)
  then show ?thesis using dec hd2 by (metis last_snoc)
qed

theorem wrapper_keeps_own_name_witness:
  "\<exists>ls E' m'. decorate ([Countcalls, Memo] @ [Trace (VStr ''####'')]) 0
        (fst (alone ''fib'' (Some ''Some doc'') fib), snd (alone ''fib'' (Some ''Some doc'') fib)) = Some (ls, (E', m')) \<and>
     name_of E' (last ls) = Some ''trace_wrap2'' \<and> doc_of E' (last ls) = Some None \<and>
     name_of E' (hd ls) = Some ''fib'' \<and> doc_of E' (hd ls) = Some (Some ''Some doc'')"
  using wrapper_keeps_own_name [OF alone_at, of "[Countcalls, Memo]" "Trace (VStr ''####'')" "''fib''" "Some ''Some doc''" fib "snd (alone ''fib'' (Some ''Some doc'') fib)"]
  by simp

text \<open>
  Claim C3 as stated fails: the wrapper \<^verbatim>\<open>countcalls\<close> returns for the module's \<^verbatim>\<open>fib\<close>
  is named \<^verbatim>\<open>countcalls_wrap\<close> and has no documentation, while \<^verbatim>\<open>fib\<close> is named
  \<^verbatim>\<open>fib\<close> and documented.
\<close>

theorem name_not_propagated:
  "(case decorate [Countcalls] 0 (alone ''fib'' (Some ''Some doc'') fib) of
      None \<Rightarrow> False
    | Some (ls, (E, m)) \<Rightarrow>
        hd ls = 0 \<and> name_of E 0 = Some ''fib'' \<and> doc_of E 0 = Some (Some ''Some doc'') \<and>
        name_of E (last ls) = Some ''countcalls_wrap'' \<and> name_of E (last ls) \<noteq> name_of E 0 \<and>
        doc_of E (last ls) = Some None \<and> doc_of E (last ls) \<noteq> doc_of E 0)"
  by (simp add: build_defs)

text \<open>
  Claim C5, as amended. \<^verbatim>\<open>countcalls(f)\<close> sets no attribute: right after
  \<^verbatim>\<open>g = countcalls(f)\<close>, in the unchanged store, \<^verbatim>\<open>g.calls\<close> is \<^verbatim>\<open>f.calls\<close>, and reading
  it raises \<^verbatim>\<open>AttributeError\<close> when the dictionary of \<open>f\<close> holds no \<^verbatim>\<open>calls\<close>. The
  counter is then created by the first call of \<open>g\<close>, which takes the absent counter for 0
  and calls \<open>f\<close> in the store where \<^verbatim>\<open>calls\<close> is 1.
\<close>

theorem countcalls_no_counter_yet:
  assumes "fun_at E f = Some fo"
  shows "\<exists>g E'. countcalls f (E, m) = Some (g, (E', m)) \<and>
     getattr_fn E' g ''calls'' m = getattr_fn E f ''calls'' m \<and>
     getattr_fn E' g ''calls'' m =
       (case bags m (fdict fo) ''calls'' of None \<Rightarrow> Inl AttributeError | Some a \<Rightarrow> Inr a) \<and>
     (bags m (fdict fo) ''calls'' = None \<longrightarrow>
        (\<forall>n args kw. call E' (Suc n) g args kw m =
           call E' n f args kw (setattr_fn E' g ''calls'' (AVal (VInt 1)) m)))"
  using assms
  by (auto simp: countcalls_def new_fun_def fun_at_def set_dict_def getattr_fn_def nth_append
      countcalls_wrap_def next_calls_def setattr_fn_def split: if_splits)

theorem countcalls_no_counter_yet_witness:
  "\<exists>g E'. countcalls 0 (fst (alone ''foo'' None foo), snd (alone ''foo'' None foo)) = Some (g, (E', snd (alone ''foo'' None foo))) \<and>
     getattr_fn E' g ''calls'' (snd (alone ''foo'' None foo)) = getattr_fn (fst (alone ''foo'' None foo)) 0 ''calls'' (snd (alone ''foo'' None foo)) \<and>
     getattr_fn E' g ''calls'' (snd (alone ''foo'' None foo)) = Inl AttributeError \<and>
     (\<forall>n args kw. call E' (Suc n) g args kw (snd (alone ''foo'' None foo)) =
           call E' n 0 args kw (setattr_fn E' g ''calls'' (AVal (VInt 1)) (snd (alone ''foo'' None foo))))"
  using countcalls_no_counter_yet [OF alone_at, of "''foo''" None foo "snd (alone ''foo'' None foo)"]
  by (simp add: alone_def def_stmt_def empty_world_def new_fun_def mem_of_def)

text \<open>
  Claim C5 as stated fails: right after \<^verbatim>\<open>g = countcalls(fib)\<close> reading \<^verbatim>\<open>g.calls\<close>
  raises \<^verbatim>\<open>AttributeError\<close>; it is not 0.
\<close>

theorem calls_absent_before_first_call:
  "(case countcalls 0 (alone ''fib'' (Some ''Some doc'') fib) of
      None \<Rightarrow> False
    | Some (g, (E, m)) \<Rightarrow>
        name_of E g = Some ''countcalls_wrap'' \<and>
        getattr_fn E g ''calls'' m = Inl AttributeError \<and>
        getattr_fn E g ''calls'' m \<noteq> Inr (AVal (VInt 0)))"
  by (simp add: build_defs)

text \<open>
  Claim C10. The wrapper returned by \<^verbatim>\<open>decorator(f)\<close> is named \<^verbatim>\<open>decorator_wrap\<close>, not
  after \<open>f\<close>, and carries the documentation of \<open>f\<close>; the one returned by \<^verbatim>\<open>disable(f)\<close>
  is named \<^verbatim>\<open>disable_wrap\<close> and has no documentation. Either calls \<open>f\<close> with the
  arguments it is given, in the store it is given, and whatever value \<open>f\<close> returns, the
  wrapper returns \<^verbatim>\<open>None\<close> in the store \<open>f\<close> left; an error of \<open>f\<close> goes through.
\<close>

theorem decorator_returns_None:
  assumes "fun_at E f = Some fo"
  shows "(\<exists>g E'. decorator f (E, m) = Some (g, (E', m)) \<and>
            name_of E' g = Some ''decorator_wrap'' \<and> doc_of E' g = Some (fdoc fo) \<and>
            (\<forall>n args kw m0. call E' (Suc n) g args kw m0 =
               (case call E' n f args kw m0 of
                  None \<Rightarrow> None
                | Some (Inl e, m1) \<Rightarrow> Some (Inl e, m1)
                | Some (Inr v, m1) \<Rightarrow> Some (Inr VNone, m1)))) \<and>
         (\<exists>g E'. disable f (E, m) = (g, (E', m)) \<and>
            name_of E' g = Some ''disable_wrap'' \<and> doc_of E' g = Some None \<and>
            (\<forall>n args kw m0. call E' (Suc n) g args kw m0 =
               (case call E' n f args kw m0 of
                  None \<Rightarrow> None
                | Some (Inl e, m1) \<Rightarrow> Some (Inl e, m1)
                | Some (Inr v, m1) \<Rightarrow> Some (Inr VNone, m1))))"
  using assms
  by (auto simp: decorator_def disable_def new_fun_def fun_at_def set_doc_def name_of_def
      doc_of_def nth_append decorator_wrap_def disable_wrap_def split: if_splits)

theorem decorator_returns_None_witness:
  "(\<exists>g E'. decorator 0 (fst (alone ''fib'' (Some ''Some doc'') fib), snd (alone ''fib'' (Some ''Some doc'') fib)) =
              Some (g, (E', snd (alone ''fib'' (Some ''Some doc'') fib))) \<and>
            name_of E' g = Some ''decorator_wrap'' \<and> doc_of E' g = Some (Some ''Some doc'') \<and>
            outcome_of (call E' 1 0 [VInt 1] [] (snd (alone ''fib'' (Some ''Some doc'') fib))) = Some (Inr (VInt 1)) \<and>
            outcome_of (call E' 2 g [VInt 1] [] (snd (alone ''fib'' (Some ''Some doc'') fib))) = Some (Inr VNone)) \<and>
   (\<exists>g E'. disable 0 (fst (alone ''fib'' (Some ''Some doc'') fib), snd (alone ''fib'' (Some ''Some doc'') fib)) =
              (g, (E', snd (alone ''fib'' (Some ''Some doc'') fib))) \<and>
            name_of E' g = Some ''disable_wrap'' \<and> doc_of E' g = Some None \<and>
            outcome_of (call E' 2 g [VInt 1] [] (snd (alone ''fib'' (Some ''Some doc'') fib))) = Some (Inr VNone))"
  using decorator_returns_None [OF alone_at, of "''fib''" "Some ''Some doc''" fib "snd (alone ''fib'' (Some ''Some doc'') fib)"]
  by (simp add: build_defs outcome_of_def nth_append decorator_wrap_def disable_wrap_def fib_def bind_params_def numeral_2_eq_2)

subsection \<open>The n-ary wrapper\<close>

lemma n_ary_one:
  assumes "fun_at E g = Some fo" "fcode fo = N_ary_wrap f"
  shows "call E (Suc n) g [x] [] m = Some (Inr x, m)"
  using assms by (simp add: n_ary_wrap_def)

lemma n_ary_two:
  assumes "fun_at E g = Some fo" "fcode fo = N_ary_wrap f"
  shows "call E (Suc n) g [x, y] [] m = call E n f [x, y] [] m"
  using assms by (simp add: n_ary_wrap_def)

lemma n_ary_more:
  assumes "fun_at E g = Some fo" "fcode fo = N_ary_wrap f"
  shows "call E (Suc n) g (x # y # z # zs) [] m =
           (case call E n g (y # z # zs) [] m of
              None \<Rightarrow> None
            | Some (Inl e, m') \<Rightarrow> Some (Inl e, m')
            | Some (Inr v, m') \<Rightarrow> call E n f [x, v] [] m')"
  using assms by (simp add: n_ary_wrap_def)

lemma n_ary_fold:
  assumes g: "fun_at E g = Some fo" "fcode fo = N_ary_wrap f"
    and F: "\<And>k x y m. d \<le> k \<Longrightarrow> call E k f [x, y] [] m = Some (F x y m)"
  shows "d + length xs \<le> N \<Longrightarrow> call E N g (x # xs) [] m = Some (right_fold F (x # xs) m)"
proof (induction xs arbitrary: x N m)
  case Nil
  have "d \<noteq> 0"
  proof
    assume "d = 0"
    then have "call E 0 f [x, x] [] m = Some (F x x m)" using F by blast
    then show False by simp
  qed
  then obtain n where "N = Suc n" using Nil by (cases N) auto
  then show ?case using n_ary_one [OF g] by simp
next
  case (Cons y ys)
  obtain n where N: "N = Suc n" using Cons.prems by (cases N) auto
  show ?case
  proof (cases ys)
    case Nil
    have "d \<le> n" using Cons.prems N Nil by simp
    then show ?thesis using n_ary_two [OF g] F N Nil by simp
  next
    case (Cons z zs)
    have n: "d + length ys \<le> n" using Cons.prems N by simp
    have inner: "call E n g (y # z # zs) [] m = Some (right_fold F (y # z # zs) m)"
      using Cons.IH [OF n] Cons by simp
    have dn: "d \<le> n" using n by simp
    show ?thesis
      unfolding N Cons n_ary_more [OF g] inner
      by (simp add: F [OF dn] split: prod.split sum.split)
  qed
qed


text \<open>
  Claim C7. For \<open>g = n_ary(f)\<close>: \<open>g(x)\<close> returns \<open>x\<close> and does not call \<open>f\<close>;
  \<open>g(x, y)\<close> is the call \<open>f(x, y)\<close>; with three or more arguments \<open>g(x, y, z, ...)\<close>
  first calls \<open>g(y, z, ...)\<close>, lets its error through, and otherwise is the call of \<open>f\<close>
  on \<open>x\<close> and that result. So, whenever \<open>f\<close> on two arguments behaves as a binary
  operation \<open>F\<close> (at every call depth from \<open>d\<close> on), \<open>g\<close> on a non-empty argument list
  returns the right fold of \<open>F\<close> over it, at every call depth that leaves \<open>d\<close> for the
  innermost call.
\<close>

theorem n_ary_right_fold:
  assumes "fun_at E g = Some fo" "fcode fo = N_ary_wrap f"
  shows "call E (Suc n) g [x] [] m = Some (Inr x, m) \<and>
         call E (Suc n) g [x, y] [] m = call E n f [x, y] [] m \<and>
         call E (Suc n) g (x # y # z # zs) [] m =
           (case call E n g (y # z # zs) [] m of
              None \<Rightarrow> None
            | Some (Inl e, m') \<Rightarrow> Some (Inl e, m')
            | Some (Inr v, m') \<Rightarrow> call E n f [x, v] [] m') \<and>
         ((\<forall>k a b m0. d \<le> k \<longrightarrow> call E k f [a, b] [] m0 = Some (F a b m0)) \<longrightarrow>
          (\<forall>N. d + length xs \<le> N \<longrightarrow>
             call E N g (x # xs) [] m = Some (right_fold F (x # xs) m)))"
  using n_ary_one [OF assms] n_ary_two [OF assms] n_ary_more [OF assms]
    n_ary_fold [OF assms, of d F xs _ x m]
  by blast

theorem n_ary_right_fold_witness:
  "call (env_of module) (Suc 2) 6 [VInt 4] [] (mem_of module) = Some (Inr (VInt 4), mem_of module) \<and>
   call (env_of module) (Suc 2) 6 [VInt 4, VInt 3] [] (mem_of module) =
     call (env_of module) 2 5 [VInt 4, VInt 3] [] (mem_of module) \<and>
   call (env_of module) (Suc 3) 6 (VInt 4 # VInt 3 # VInt 2 # [VInt 1]) [] (mem_of module) =
     (case call (env_of module) 3 6 (VInt 3 # VInt 2 # [VInt 1]) [] (mem_of module) of
        None \<Rightarrow> None
      | Some (Inl e, m') \<Rightarrow> Some (Inl e, m')
      | Some (Inr v, m') \<Rightarrow> call (env_of module) 3 5 [VInt 4, v] [] m') \<and>
   call (env_of module) 5 6 (VInt 4 # [VInt 3, VInt 2, VInt 1]) [] (mem_of module) =
     Some (right_fold counted_mul (VInt 4 # [VInt 3, VInt 2, VInt 1]) (mem_of module)) \<and>
   fst (right_fold counted_mul (VInt 4 # [VInt 3, VInt 2, VInt 1]) (mem_of module)) = Inr (VInt 24)"
proof -
  have F: "\<forall>k a b m0. 2 \<le> k \<longrightarrow>
     call (env_of module) k 5 [a, b] [] m0 = Some (counted_mul a b m0)"
    using bar_counted by blast
  have fold: "fst (right_fold counted_mul (VInt 4 # [VInt 3, VInt 2, VInt 1]) (mem_of module)) = Inr (VInt 24)"
    by (simp add: counted_mul_def next_calls_def setattr_def module_defs)
  have g: "fcode \<lparr>fname = ''n_ary_wrap'', fdoc = None, fdict = 4, fcode = N_ary_wrap 5\<rparr> = N_ary_wrap 5"
    by simp
  note t1 = n_ary_right_fold [OF module_bar(3) g,
      where n = 2 and x = "VInt 4" and y = "VInt 3" and z = "VInt 2" and zs = "[VInt 1]"
        and m = "mem_of module" and d = 2 and F = counted_mul and xs = "[VInt 3, VInt 2, VInt 1]"]
  note t2 = n_ary_right_fold [OF module_bar(3) g,
      where n = 3 and x = "VInt 4" and y = "VInt 3" and z = "VInt 2" and zs = "[VInt 1]"
        and m = "mem_of module" and d = 2 and F = counted_mul and xs = "[VInt 3, VInt 2, VInt 1]"]
  have t3: "call (env_of module) 5 6 (VInt 4 # [VInt 3, VInt 2, VInt 1]) [] (mem_of module) =
     Some (right_fold counted_mul (VInt 4 # [VInt 3, VInt 2, VInt 1]) (mem_of module))"
    using t1 F by simp
  show ?thesis using t1 t2 t3 fold by blast
qed

subsection \<open>The call counter\<close>








subsection \<open>The tracer\<close>

text \<open>
  Claim C2, as amended. Let \<open>g = trace(token)(f)\<close> be called at depth \<open>d\<close>. The wrapper
  prints the entry line, sets the depth to \<open>d + 1\<close> and calls \<open>f\<close>. If \<open>f\<close> returns with
  the depth as the wrapper set it, the wrapper sets the depth back to \<open>d\<close>, prints the
  exit line and returns the result of \<open>f\<close>. If \<open>f\<close> raises, the error goes through at
  once in the store \<open>f\<close> left: there is no decrement and no exit line on that path, so
  the depth stays at \<open>d + 1\<close> unless \<open>f\<close> itself changed it.
\<close>

theorem trace_depth_on_return_only:
  assumes "fun_at E g = Some fo" "fcode fo = Trace_wrap2 indent f" "fun_at E f = Some ff"
    and "bags m (fdict fo) ''depth'' = Some (AVal (VInt d))"
  shows "(\<forall>v m3.
            call E n f args kw
              (setattr (fdict fo) ''depth'' (AVal (VInt (d + 1)))
                 (print (repeat (str indent) d @ '' --> '' @ fname ff @
                         ''('' @ join '', '' (map str args) @ '')'') m)) = Some (Inr v, m3) \<and>
            bags m3 (fdict fo) ''depth'' = Some (AVal (VInt (d + 1))) \<longrightarrow>
            call E (Suc n) g args kw m =
              Some (Inr v,
                    print (repeat (str indent) d @ '' <-- '' @ fname ff @
                           ''('' @ join '', '' (map str args) @ '')'' @ '' == '' @ str v)
                      (setattr (fdict fo) ''depth'' (AVal (VInt d)) m3)) \<and>
            bags (print (repeat (str indent) d @ '' <-- '' @ fname ff @
                           ''('' @ join '', '' (map str args) @ '')'' @ '' == '' @ str v)
                      (setattr (fdict fo) ''depth'' (AVal (VInt d)) m3)) (fdict fo) ''depth'' =
              Some (AVal (VInt d))) \<and>
         (\<forall>e m3.
            call E n f args kw
              (setattr (fdict fo) ''depth'' (AVal (VInt (d + 1)))
                 (print (repeat (str indent) d @ '' --> '' @ fname ff @
                         ''('' @ join '', '' (map str args) @ '')'') m)) = Some (Inl e, m3) \<longrightarrow>
            call E (Suc n) g args kw m = Some (Inl e, m3))"
  using assms
  by (simp add: trace_wrap2_def indent_str_def iadd_def print_def setattr_def Let_def)

theorem trace_depth_on_return_only_witness:
  "outcome_of (call (env_of module) (Suc 3) 11 [VInt 1] [] (mem_of module)) = Some (Inr (VInt 1)) \<and>
   attr_after (env_of module) 11 ''depth''
     (call (env_of module) (Suc 3) 11 [VInt 1] [] (mem_of module)) = Some (Inr (AVal (VInt 0))) \<and>
   outcome_of (call (env_of module) (Suc 3) 11 [VStr ''x''] [] (mem_of module)) =
     Some (Inl TypeError)"
proof -
  have c: "fcode \<lparr>fname = ''trace_wrap2'', fdoc = None, fdict = 8,
                   fcode = Trace_wrap2 (VStr ''####'') 10\<rparr> = Trace_wrap2 (VStr ''####'') 10"
    by simp
  have d: "bags (mem_of module) (fdict \<lparr>fname = ''trace_wrap2'', fdoc = None, fdict = 8,
                   fcode = Trace_wrap2 (VStr ''####'') 10\<rparr>) ''depth'' = Some (AVal (VInt 0))"
    by (simp add: module_mem_fib)
  note t1 = trace_depth_on_return_only [OF module_fib(4) c module_fib(3) d,
      where n = 3 and args = "[VInt 1]" and kw = "[]"]
  note t2 = trace_depth_on_return_only [OF module_fib(4) c module_fib(3) d,
      where n = 3 and args = "[VStr ''x'']" and kw = "[]"]
  show ?thesis
    using t1 t2 module_fib module_mem_fib
    by (simp add: run_defs fib_def eval_nat_numeral)
qed

text \<open>
  Claim C2 as stated fails: the module's \<^verbatim>\<open>fib\<close> called with a string raises
  \<^verbatim>\<open>TypeError\<close> at the comparison, and the depth, 0 before the call, is 1 after it.
\<close>

theorem depth_left_raised:
  "getattr_fn (env_of module) 11 ''depth'' (mem_of module) = Inr (AVal (VInt 0)) \<and>
   outcome_of (call_global (env_of module) 4 ''fib'' [VStr ''x''] [] (mem_of module)) =
     Some (Inl TypeError) \<and>
   attr_after (env_of module) 11 ''depth''
     (call_global (env_of module) 4 ''fib'' [VStr ''x''] [] (mem_of module)) =
     Some (Inr (AVal (VInt 1)))"
  using module_fib module_mem_fib
  by (simp add: run_defs fib_def eval_nat_numeral)

subsection \<open>The module's Fibonacci function\<close>

lemma fib_6_traced:
  "outcome_of (call_global (env_of module) 30 ''fib'' [VInt 6] [] (mem_of module)) =
     Some (Inr (VInt 13))"
  by code_simp

lemma fib_6_untraced:
  "outcome_of (call_global (env_of (module_with [Countcalls, Memo])) 30 ''fib'' [VInt 6] []
                 (mem_of (module_with [Countcalls, Memo]))) =
     Some (Inr (VInt 13))"
  by code_simp

text \<open>
  Claim C8, as amended. With the base case 1 for \<open>n \<le> 1\<close> the values are
  1, 1, 2, 3, 5, 8, 13: the call \<^verbatim>\<open>fib(6)\<close> of the module's traced, memoized and counted
  function returns 13, and it returns 13 as well when the module is built without the
  trace layer.
\<close>

theorem fib_6_returns_13:
  "outcome_of (call_global (env_of module) 30 ''fib'' [VInt 6] [] (mem_of module)) =
     Some (Inr (VInt 13)) \<and>
   outcome_of (call_global (env_of (module_with [Countcalls, Memo])) 30 ''fib'' [VInt 6] []
                 (mem_of (module_with [Countcalls, Memo]))) =
     Some (Inr (VInt 13))"
  using fib_6_traced fib_6_untraced by (rule conjI)

text \<open>Claim C8 as stated fails: the result is not 8.\<close>

theorem fib_6_is_not_8:
  "outcome_of (call_global (env_of module) 30 ''fib'' [VInt 6] [] (mem_of module)) \<noteq>
     Some (Inr (VInt 8))"
  by (simp add: fib_6_traced)

subsection \<open>The memoizer\<close>

text \<open>
  A cached value that is truthy is returned without a call of \<open>f\<close>, whatever the names
  of the keyword arguments: the key is the positional values followed by the keyword
  values. A cached value that is falsy is treated as absent.
\<close>

lemma memo_hit_truthy:
  assumes "fun_at E g = Some fo" "fcode fo = Memo_wrap f"
    and "bags m (fdict fo) ''cache'' = Some (ADict d)"
    and "d (args @ map snd kw) = Some v" "truthy v"
  shows "call E (Suc n) g args kw m = Some (Inr v, m)"
  using assms by (simp add: memo_wrap_def)

lemma memo_falsy_calls_again:
  assumes "fun_at E g = Some fo" "fcode fo = Memo_wrap f"
    and "bags m (fdict fo) ''cache'' = Some (ADict d)"
    and "d (args @ map snd kw) = Some v" "\<not> truthy v"
    and "call E n f args kw m = Some (Inr r, m')"
    and "bags m' (fdict fo) ''cache'' = Some (ADict d')"
  shows "call E (Suc n) g args kw m =
         Some (Inr r, setattr (fdict fo) ''cache'' (ADict (d'(args @ map snd kw \<mapsto> r))) m')"
  using assms by (simp add: memo_wrap_def)

text \<open>
  Claim C1, on the code. The module's \<^verbatim>\<open>bar(4, 0)\<close> returns 0; after the call the cache
  holds 0 under the key \<open>(4, 0)\<close> and the counter is 1. The second \<^verbatim>\<open>bar(4, 0)\<close> returns
  0 again, but the counter is 2: the wrapped function has been called again, since
  \<^verbatim>\<open>if not val\<close> takes the cached 0 for a miss.
\<close>

theorem memo_recomputes_falsy:
  "(case call_global (env_of module) 4 ''bar'' [VInt 4, VInt 0] [] (mem_of module) of
      Some (Inr v1, m1) \<Rightarrow>
        v1 = VInt 0 \<and>
        cached (env_of module) 7 [VInt 4, VInt 0] m1 = Some (VInt 0) \<and>
        calls_of (env_of module) 7 m1 = AVal (VInt 1) \<and>
        (case call_global (env_of module) 4 ''bar'' [VInt 4, VInt 0] [] m1 of
           Some (Inr v2, m2) \<Rightarrow> v2 = VInt 0 \<and> calls_of (env_of module) 7 m2 = AVal (VInt 2)
         | _ \<Rightarrow> False)
    | _ \<Rightarrow> False)"
  using module_bar module_mem_bar
  by (simp add: run_defs bar_def eval_nat_numeral cached_def calls_of_def)

text \<open>
  Claim C9, on the code. For \<^verbatim>\<open>bar\<close> under \<^verbatim>\<open>@memo @countcalls\<close>, the calls
  \<^verbatim>\<open>bar(a=2, b=5)\<close> and \<^verbatim>\<open>bar(b=2, a=5)\<close> have the same key \<open>(2, 5)\<close>: the second returns
  the cached 10 and the counter stays 1. The calls \<^verbatim>\<open>bar(a=0, b=5)\<close> and
  \<^verbatim>\<open>bar(b=0, a=5)\<close> have the same key \<open>(0, 5)\<close> too, and 0 is in the cache after the
  first, but the second calls the wrapped function again: the counter is 2.
\<close>

theorem memo_key_falsy_calls_again:
  "(case call_global (env_of memo_bar) 3 ''bar'' [] [(''a'', VInt 2), (''b'', VInt 5)] (mem_of memo_bar) of
      Some (Inr v1, m1) \<Rightarrow>
        v1 = VInt 10 \<and>
        cached (env_of memo_bar) 2 [VInt 2, VInt 5] m1 = Some (VInt 10) \<and>
        calls_of (env_of memo_bar) 2 m1 = AVal (VInt 1) \<and>
        (case call_global (env_of memo_bar) 3 ''bar'' [] [(''b'', VInt 2), (''a'', VInt 5)] m1 of
           Some (Inr v2, m2) \<Rightarrow> v2 = VInt 10 \<and> calls_of (env_of memo_bar) 2 m2 = AVal (VInt 1)
         | _ \<Rightarrow> False)
    | _ \<Rightarrow> False) \<and>
   (case call_global (env_of memo_bar) 3 ''bar'' [] [(''a'', VInt 0), (''b'', VInt 5)] (mem_of memo_bar) of
      Some (Inr v1, m1) \<Rightarrow>
        v1 = VInt 0 \<and>
        cached (env_of memo_bar) 2 [VInt 0, VInt 5] m1 = Some (VInt 0) \<and>
        calls_of (env_of memo_bar) 2 m1 = AVal (VInt 1) \<and>
        (case call_global (env_of memo_bar) 3 ''bar'' [] [(''b'', VInt 0), (''a'', VInt 5)] m1 of
           Some (Inr v2, m2) \<Rightarrow> v2 = VInt 0 \<and> calls_of (env_of memo_bar) 2 m2 = AVal (VInt 2)
         | _ \<Rightarrow> False)
    | _ \<Rightarrow> False)"
  using memo_bar_funs
  by (simp add: run_defs bar_def eval_nat_numeral cached_def calls_of_def)

end
